theory Spec2Isabelle
  imports Main "HOL-Library.AList" "HOL-Library.Char_ord" "HOL-Library.List_Lexorder"
begin

section \<open>The value vocabulary of \<^verbatim>\<open>types.go\<close>\<close>

text \<open>
  A Go \<^verbatim>\<open>string\<close> is a sequence of bytes, and so is a \<^verbatim>\<open>[]byte\<close>; a HOL
  \<^typ>\<open>char\<close> is one byte, so both are character lists here.
\<close>

type_synonym byte = char

text \<open>
  A \<^verbatim>\<open>Document\<close> is a \<^verbatim>\<open>map[string]interface{}\<close>. The values stored in it are the
  closed vocabulary of the library: \<^verbatim>\<open>nil\<close>, \<^verbatim>\<open>string\<close>, \<^verbatim>\<open>Number\<close> (a named string
  type holding decimal text), \<^verbatim>\<open>[]byte\<close>, \<^verbatim>\<open>bool\<close>, the three set types, \<^verbatim>\<open>List\<close> and
  \<^verbatim>\<open>Document\<close> itself. A map is the list of its entries in the order a \<^verbatim>\<open>range\<close> loop
  visits them; a Go map holds every key once, which theorems that need it assume as
  \<open>distinct (map fst d)\<close>. A nil slice or map and an empty one are both the empty
  list: no function below tells them apart, except \<^verbatim>\<open>*d == nil\<close> in \<^verbatim>\<open>UnmarshalJSON\<close>,
  whose receiver is therefore an option (\<open>None\<close> is the nil map).
\<close>

datatype val =
    VNil
  | VString string
  | VNumber string
  | VBinary "byte list"
  | VBool bool
  | VStringSet "string list"
  | VNumberSet "string list"
  | VBinarySet "byte list list"
  | VList "val list"
  | VDocument "(string \<times> val) list"

type_synonym Document = "(string \<times> val) list"

text \<open>The index expression \<^verbatim>\<open>d[key]\<close>: the stored value, or \<^verbatim>\<open>nil\<close> for a missing key.\<close>

definition index :: "Document \<Rightarrow> string \<Rightarrow> val" where
  "index d key = (case map_of d key of None \<Rightarrow> VNil | Some v \<Rightarrow> v)"

text \<open>
  A failed type assertion \<^verbatim>\<open>x.(T)\<close> and an explicit \<^verbatim>\<open>panic(err)\<close> are values of
  the type \<^verbatim>\<open>panic\<close>; a function that can panic returns \<^verbatim>\<open>panic + 'a\<close>, with
  \<open>Inl\<close> for the panic.
\<close>

datatype time_error = BadFormat | OutOfRange | ExtraText

datatype panic = TypeAssertion | TimeParse time_error

section \<open>\<^verbatim>\<open>Number.IntVal\<close> and \<^verbatim>\<open>strconv.Atoi\<close>\<close>

datatype num_error = ErrSyntax | ErrRange

definition isDigit :: "char \<Rightarrow> bool" where
  "isDigit c = (48 \<le> (of_char c :: nat) \<and> (of_char c :: nat) \<le> 57)"

text \<open>The digit loop of the standard library: \<^verbatim>\<open>n = n*10 + (ch - '0')\<close>.\<close>

fun digits_val :: "nat \<Rightarrow> string \<Rightarrow> nat" where
  "digits_val n [] = n"
| "digits_val n (ch # s) = digits_val (n * 10 + (of_char ch - 48)) s"

text \<open>
  \<^verbatim>\<open>strconv.Atoi\<close> is not code of this repository; this is what its documentation
  says, for a 64-bit \<^verbatim>\<open>int\<close>: an optional sign, then one or more decimal digits. A
  syntax error returns 0 with \<^verbatim>\<open>ErrSyntax\<close>; a value outside the range returns the
  nearest bound with \<^verbatim>\<open>ErrRange\<close>. Both results are returned, as in Go.
\<close>

definition Atoi :: "string \<Rightarrow> int \<times> num_error option" where
  "Atoi s =
     (let (neg, ds) =
            (case s of
               [] \<Rightarrow> (False, [])
             | c # r \<Rightarrow> if c = CHR ''+'' then (False, r)
                        else if c = CHR ''-'' then (True, r)
                        else (False, s))
      in if ds = [] \<or> \<not> list_all isDigit ds then (0, Some ErrSyntax)
         else let un = digits_val 0 ds
              in if \<not> neg \<and> un \<ge> 2 ^ 63 then (2 ^ 63 - 1, Some ErrRange)
                 else if neg \<and> un > 2 ^ 63 then (- (2 ^ 63), Some ErrRange)
                 else (if neg then - int un else int un, None))"

definition IntVal :: "string \<Rightarrow> int \<times> num_error option" where
  "IntVal n = Atoi n"

section \<open>\<^verbatim>\<open>isEmptyValue\<close>\<close>

text \<open>
  \<^verbatim>\<open>reflect.ValueOf(val).Kind()\<close> on the values of the vocabulary. \<^verbatim>\<open>Number\<close> is a
  named string type, so its kind is \<^verbatim>\<open>String\<close>; the sets, \<^verbatim>\<open>List\<close> and \<^verbatim>\<open>[]byte\<close> are
  slices; \<^verbatim>\<open>reflect.ValueOf(nil)\<close> is the zero \<^verbatim>\<open>Value\<close>, of kind \<^verbatim>\<open>Invalid\<close>. No value
  of the vocabulary has kind \<^verbatim>\<open>Array\<close>, \<^verbatim>\<open>Interface\<close> or \<^verbatim>\<open>Ptr\<close>; the kinds are kept so
  that the switch below has the cases of the source.
\<close>

datatype Kind = KInvalid | KBool | KString | KSlice | KMap | KArray | KInterface | KPtr

fun Kind_of :: "val \<Rightarrow> Kind" where
  "Kind_of VNil = KInvalid"
| "Kind_of (VString s) = KString"
| "Kind_of (VNumber n) = KString"
| "Kind_of (VBinary b) = KSlice"
| "Kind_of (VBool b) = KBool"
| "Kind_of (VStringSet ss) = KSlice"
| "Kind_of (VNumberSet ns) = KSlice"
| "Kind_of (VBinarySet bs) = KSlice"
| "Kind_of (VList l) = KSlice"
| "Kind_of (VDocument m) = KMap"

fun Len :: "val \<Rightarrow> nat" where
  "Len (VString s) = length s"
| "Len (VNumber n) = length n"
| "Len (VBinary b) = length b"
| "Len (VStringSet ss) = length ss"
| "Len (VNumberSet ns) = length ns"
| "Len (VBinarySet bs) = length bs"
| "Len (VList l) = length l"
| "Len (VDocument m) = length m"
| "Len _ = 0"

text \<open>
  \<^verbatim>\<open>Len\<close> and \<^verbatim>\<open>IsNil\<close> are only called under the kinds of the switch below; on the
  values of the vocabulary the two \<^verbatim>\<open>IsNil\<close> cases are never reached.
\<close>

definition IsNil :: "val \<Rightarrow> bool" where
  "IsNil v = (v = VNil)"

definition isEmptyValue :: "val \<Rightarrow> bool" where
  "isEmptyValue v =
     (case Kind_of v of
        KArray \<Rightarrow> Len v = 0
      | KMap \<Rightarrow> Len v = 0
      | KSlice \<Rightarrow> Len v = 0
      | KString \<Rightarrow> Len v = 0
      | KInterface \<Rightarrow> IsNil v
      | KPtr \<Rightarrow> IsNil v
      | KInvalid \<Rightarrow> True
      | _ \<Rightarrow> False)"

text \<open>
  The emptiness of the specification, in its words: a value is empty iff it is (a) a
  nil or absent reference-typed value, (b) a zero-length string, sequence, set or map,
  or (c) the zero value for its kind.
\<close>

definition zero_value :: "val \<Rightarrow> bool" where
  "zero_value v = (case v of VNil \<Rightarrow> True | VBool b \<Rightarrow> \<not> b | _ \<Rightarrow> Len v = 0)"

definition spec_empty :: "val \<Rightarrow> bool" where
  "spec_empty v =
     (v = VNil \<or> (Kind_of v \<in> {KString, KSlice, KMap, KArray} \<and> Len v = 0) \<or> zero_value v)"

section \<open>JSON values and buffers\<close>

text \<open>
  The generic values of \<^verbatim>\<open>encoding/json\<close>: what \<^verbatim>\<open>json.Marshal\<close> is given and what
  \<^verbatim>\<open>json.Unmarshal\<close> stores in an \<^verbatim>\<open>interface{}\<close>. A number keeps its text. A byte
  buffer is \<open>NotJSON\<close> when it is not one well-formed JSON text; otherwise it is
  \<open>Text j\<close>, the text that \<^verbatim>\<open>json.Marshal\<close> writes for the generic value \<open>j\<close> (every
  well-formed JSON text reads as the text written for the value it holds).
\<close>

datatype json =
    JNull
  | JBool bool
  | JNumber string
  | JString string
  | JArray "json list"
  | JObject "(string \<times> json) list"

datatype buffer = NotJSON | Text json

datatype json_error = SyntaxError | UnmarshalTypeError

text \<open>
  \<^verbatim>\<open>json.Marshal(output)\<close> with \<^verbatim>\<open>output\<close> a \<^verbatim>\<open>map[string]interface{}\<close> of generic
  values: the text written for the object with these entries.
\<close>

definition json_Marshal :: "(string \<times> json) list \<Rightarrow> buffer" where
  "json_Marshal output = Text (JObject output)"

text \<open>
  A JSON text holds Unicode text only. When \<^verbatim>\<open>json.Marshal\<close> writes a Go string, it
  takes it rune by rune with \<^verbatim>\<open>utf8.DecodeRuneInString\<close> and writes the replacement
  character U+FFFD for every byte that does not start a valid UTF-8 sequence; reading
  the text back gives the string with these bytes replaced. \<open>rune_size b s\<close> is the
  length of the valid sequence that starts with the byte \<open>b\<close> followed by \<open>s\<close>, and 0
  when there is none (the table of package \<^verbatim>\<open>utf8\<close>).
\<close>

definition within :: "nat \<Rightarrow> nat \<Rightarrow> char \<Rightarrow> bool" where
  "within lo hi c = (lo \<le> of_char c \<and> of_char c \<le> hi)"

definition rune_size :: "char \<Rightarrow> string \<Rightarrow> nat" where
  "rune_size b s =
     (let x = (of_char b :: nat)
      in if x < 128 then 1
         else if 194 \<le> x \<and> x \<le> 223 then
           (case s of
              b1 # _ \<Rightarrow> if within 128 191 b1 then 2 else 0
            | _ \<Rightarrow> 0)
         else if 224 \<le> x \<and> x \<le> 239 then
           (case s of
              b1 # b2 # _ \<Rightarrow>
                if within (if x = 224 then 160 else 128) (if x = 237 then 159 else 191) b1
                   \<and> within 128 191 b2
                then 3 else 0
            | _ \<Rightarrow> 0)
         else if 240 \<le> x \<and> x \<le> 244 then
           (case s of
              b1 # b2 # b3 # _ \<Rightarrow>
                if within (if x = 240 then 144 else 128) (if x = 244 then 143 else 191) b1
                   \<and> within 128 191 b2 \<and> within 128 191 b3
                then 4 else 0
            | _ \<Rightarrow> 0)
         else 0)"

definition replacement :: string where
  "replacement = [CHR 0xEF, CHR 0xBF, CHR 0xBD]"

text \<open>
  The first argument counts the bytes of the current sequence that are still to be
  copied.
\<close>

fun coerce :: "nat \<Rightarrow> string \<Rightarrow> string" where
  "coerce k [] = []"
| "coerce k (b # s) =
     (if 0 < k then b # coerce (k - 1) s
      else if rune_size b s = 0 then replacement @ coerce 0 s
      else b # coerce (rune_size b s - 1) s)"

definition utf8_coerce :: "string \<Rightarrow> string" where
  "utf8_coerce s = coerce 0 s"

definition valid_utf8 :: "string \<Rightarrow> bool" where
  "valid_utf8 s = (utf8_coerce s = s)"

text \<open>
  The value that is read back from the text written for a generic value: strings and
  keys with their invalid bytes replaced. \<^verbatim>\<open>json.Marshal\<close> writes the entries of a map
  sorted by key, and a decoder that meets a key twice keeps the last value; so of the
  entries whose keys have become equal, the one with the greatest key stays.
\<close>

fun readback :: "json \<Rightarrow> json" where
  "readback (JString s) = JString (utf8_coerce s)"
| "readback (JArray xs) = JArray (map readback xs)"
| "readback (JObject es) =
     JObject (map (\<lambda>(k, j). (utf8_coerce k, readback j))
               (filter (\<lambda>(k, j). \<not> list_ex (\<lambda>(k', j'). utf8_coerce k' = utf8_coerce k \<and> k < k') es)
                  es))"
| "readback j = j"

text \<open>
  \<^verbatim>\<open>json.Unmarshal(buf, &raw)\<close> with \<^verbatim>\<open>raw\<close> a fresh \<^verbatim>\<open>map[string]interface{}\<close>, as the
  documentation of \<^verbatim>\<open>encoding/json\<close> gives it: a syntax error for a malformed text;
  a JSON object fills the map; "the JSON null value unmarshals into an interface, map,
  pointer, or slice by setting that Go value to nil", with no error; any other JSON
  value is an \<^verbatim>\<open>UnmarshalTypeError\<close>. The result is the error or the entries of
  \<^verbatim>\<open>raw\<close> (none for the nil map).
\<close>

fun json_Unmarshal :: "buffer \<Rightarrow> json_error + (string \<times> json) list" where
  "json_Unmarshal NotJSON = Inl SyntaxError"
| "json_Unmarshal (Text j) =
     (case readback j of
        JNull \<Rightarrow> Inr []
      | JObject entries \<Rightarrow> Inr entries
      | _ \<Rightarrow> Inl UnmarshalTypeError)"

section \<open>The wire codec\<close>

text \<open>
  Modelled from the spec: the text encoding of a \<^verbatim>\<open>Binary\<close> payload, which belongs to
  \<^verbatim>\<open>wireEncode\<close> and \<^verbatim>\<open>wireDecode\<close>, functions of this package that \<^verbatim>\<open>types.go\<close> calls
  and another file of the package defines. The specification says "Binary -> {"B": base64
  or equivalent text encoding}" and "B -> decode wire text to byte sequence"; this is
  standard base64 with padding.
\<close>

definition b64_alphabet :: string where
  "b64_alphabet = ''ABCDEFGHIJKLMNOPQRSTUVWXYZabcdefghijklmnopqrstuvwxyz0123456789+/''"

definition b64_char :: "nat \<Rightarrow> char" where
  "b64_char n = b64_alphabet ! n"

fun position :: "'a \<Rightarrow> 'a list \<Rightarrow> nat option" where
  "position x [] = None"
| "position x (y # ys) = (if x = y then Some 0 else map_option Suc (position x ys))"

definition b64_index :: "char \<Rightarrow> nat option" where
  "b64_index c = position c b64_alphabet"

fun b64_encode :: "byte list \<Rightarrow> string" where
  "b64_encode [] = []"
| "b64_encode [a] =
     (let x = (of_char a :: nat)
      in [b64_char (x div 4), b64_char (x mod 4 * 16), CHR ''='', CHR ''=''])"
| "b64_encode [a, b] =
     (let x = (of_char a :: nat); y = (of_char b :: nat)
      in [b64_char (x div 4), b64_char (x mod 4 * 16 + y div 16),
          b64_char (y mod 16 * 4), CHR ''=''])"
| "b64_encode (a # b # c # rest) =
     (let x = (of_char a :: nat); y = (of_char b :: nat); z = (of_char c :: nat)
      in [b64_char (x div 4), b64_char (x mod 4 * 16 + y div 16),
          b64_char (y mod 16 * 4 + z div 64), b64_char (z mod 64)] @ b64_encode rest)"

fun b64_decode :: "string \<Rightarrow> byte list option" where
  "b64_decode [] = Some []"
| "b64_decode (c0 # c1 # c2 # c3 # rest) =
     (case (b64_index c0, b64_index c1) of
        (Some i0, Some i1) \<Rightarrow>
          (if rest = [] \<and> c2 = CHR ''='' \<and> c3 = CHR ''=''
           then Some [char_of (i0 * 4 + i1 div 16)]
           else (case b64_index c2 of
                   None \<Rightarrow> None
                 | Some i2 \<Rightarrow>
                     (if rest = [] \<and> c3 = CHR ''=''
                      then Some [char_of (i0 * 4 + i1 div 16),
                                 char_of (i1 mod 16 * 16 + i2 div 4)]
                      else (case b64_index c3 of
                              None \<Rightarrow> None
                            | Some i3 \<Rightarrow>
                                map_option
                                  (\<lambda>bs. char_of (i0 * 4 + i1 div 16) #
                                        char_of (i1 mod 16 * 16 + i2 div 4) #
                                        char_of (i2 mod 4 * 64 + i3) # bs)
                                  (b64_decode rest)))))
      | _ \<Rightarrow> None)"
| "b64_decode _ = None"

text \<open>
  Modelled from the spec: \<^verbatim>\<open>wireEncode\<close>, called by \<^verbatim>\<open>Document.MarshalJSON\<close> and
  defined in another file of the package. The specification (4.2): a value is wrapped as
  one discriminator and its payload: String -> S, Number -> N with the "decimal text,
  unmodified", Binary -> B, Bool -> BOOL, the null marker -> \<^verbatim>\<open>{"NULL": true}\<close>, the sets
  -> SS, NS, BS with "each element raw, not individually wrapped", List -> L with "each
  element fully wrapped, recursively encoded, empty elements skipped per the same
  emptiness rule", Document -> M, "recursive; empty fields skipped". The emptiness rule
  is \<open>isEmptyValue\<close>, the one of \<^verbatim>\<open>types.go\<close>. The elements of a set are written as
  they are, those of a BinarySet too: the specification gives a text encoding for the
  payload of B only, and reads the elements of BS back as raw wire strings.
\<close>

fun wireEncode :: "val \<Rightarrow> json" where
  "wireEncode (VString s) = JObject [(''S'', JString s)]"
| "wireEncode (VNumber n) = JObject [(''N'', JString n)]"
| "wireEncode (VBinary b) = JObject [(''B'', JString (b64_encode b))]"
| "wireEncode (VBool b) = JObject [(''BOOL'', JBool b)]"
| "wireEncode VNil = JObject [(''NULL'', JBool True)]"
| "wireEncode (VStringSet ss) = JObject [(''SS'', JArray (map JString ss))]"
| "wireEncode (VNumberSet ns) = JObject [(''NS'', JArray (map JString ns))]"
| "wireEncode (VBinarySet bs) = JObject [(''BS'', JArray (map JString bs))]"
| "wireEncode (VList l) =
     JObject [(''L'', JArray (map wireEncode (filter (\<lambda>x. \<not> isEmptyValue x) l)))]"
| "wireEncode (VDocument m) =
     JObject [(''M'', JObject (map (\<lambda>(key, val). (key, wireEncode val))
                                (filter (\<lambda>(key, val). \<not> isEmptyValue val) m)))]"

datatype decode_error = NotOneDiscriminator | UnknownDiscriminator | BadPayload

text \<open>The results of a sequence of steps, or the first failure among them.\<close>

fun collect :: "('e + 'a) list \<Rightarrow> 'e + 'a list" where
  "collect [] = Inr []"
| "collect (r # rs) =
     (case r of
        Inl e \<Rightarrow> Inl e
      | Inr x \<Rightarrow> (case collect rs of Inl e \<Rightarrow> Inl e | Inr xs \<Rightarrow> Inr (x # xs)))"

definition wire_string :: "json \<Rightarrow> decode_error + string" where
  "wire_string p = (case p of JString s \<Rightarrow> Inr s | _ \<Rightarrow> Inl BadPayload)"

text \<open>
  Modelled from the spec: \<^verbatim>\<open>wireDecode\<close>, called by \<^verbatim>\<open>Document.UnmarshalJSON\<close> and
  defined in another file of the package. The specification (4.3): "inspect the single
  discriminator key present in the node and dispatch": S -> string; N -> Number, "store
  text verbatim, do not parse"; B -> "decode wire text to byte sequence"; BOOL -> bool;
  NULL -> the nil marker; SS, NS, BS -> "sequence of raw wire strings, retyped as the
  matching Set kind (no validation of numeric/binary format at this stage)"; L ->
  "sequence of decoded Values (recurse per-element)"; M -> "recurse into a new Document,
  decoding each field". A node with zero or several keys, or with an unknown
  discriminator, is a decode failure; so is a payload of the wrong JSON shape.
\<close>

fun wireDecode :: "json \<Rightarrow> decode_error + val" where
  "wireDecode (JObject [(k, p)]) =
     (if k = ''S'' then (case p of JString s \<Rightarrow> Inr (VString s) | _ \<Rightarrow> Inl BadPayload)
      else if k = ''N'' then (case p of JString s \<Rightarrow> Inr (VNumber s) | _ \<Rightarrow> Inl BadPayload)
      else if k = ''B'' then
        (case p of
           JString s \<Rightarrow>
             (case b64_decode s of None \<Rightarrow> Inl BadPayload | Some b \<Rightarrow> Inr (VBinary b))
         | _ \<Rightarrow> Inl BadPayload)
      else if k = ''BOOL'' then (case p of JBool b \<Rightarrow> Inr (VBool b) | _ \<Rightarrow> Inl BadPayload)
      else if k = ''NULL'' then Inr VNil
      else if k = ''SS'' then
        (case p of
           JArray items \<Rightarrow>
             (case collect (map wire_string items) of
                Inl e \<Rightarrow> Inl e
              | Inr ss \<Rightarrow> Inr (VStringSet ss))
         | _ \<Rightarrow> Inl BadPayload)
      else if k = ''NS'' then
        (case p of
           JArray items \<Rightarrow>
             (case collect (map wire_string items) of
                Inl e \<Rightarrow> Inl e
              | Inr ns \<Rightarrow> Inr (VNumberSet ns))
         | _ \<Rightarrow> Inl BadPayload)
      else if k = ''BS'' then
        (case p of
           JArray items \<Rightarrow>
             (case collect (map wire_string items) of
                Inl e \<Rightarrow> Inl e
              | Inr bs \<Rightarrow> Inr (VBinarySet bs))
         | _ \<Rightarrow> Inl BadPayload)
      else if k = ''L'' then
        (case p of
           JArray items \<Rightarrow>
             (case collect (map wireDecode items) of
                Inl e \<Rightarrow> Inl e
              | Inr l \<Rightarrow> Inr (VList l))
         | _ \<Rightarrow> Inl BadPayload)
      else if k = ''M'' then
        (case p of
           JObject entries \<Rightarrow>
             (case collect (map (\<lambda>(key, node). case wireDecode node of
                                                  Inl e \<Rightarrow> Inl e
                                                | Inr v \<Rightarrow> Inr (key, v)) entries) of
                Inl e \<Rightarrow> Inl e
              | Inr m \<Rightarrow> Inr (VDocument m))
         | _ \<Rightarrow> Inl BadPayload)
      else Inl UnknownDiscriminator)"
| "wireDecode _ = Inl NotOneDiscriminator"

section \<open>\<^verbatim>\<open>Document.MarshalJSON\<close> and \<^verbatim>\<open>Document.UnmarshalJSON\<close>\<close>

text \<open>
  The loop of \<^verbatim>\<open>MarshalJSON\<close> over the entries of \<^verbatim>\<open>d\<close>, with the map \<^verbatim>\<open>output\<close> as
  its state: \<^verbatim>\<open>output[key] = wireEncode(val)\<close> for the values that are not empty. The
  result is the buffer that \<^verbatim>\<open>json.Marshal(output)\<close> writes.
\<close>

fun MarshalJSON_loop :: "Document \<Rightarrow> (string \<times> json) list \<Rightarrow> (string \<times> json) list" where
  "MarshalJSON_loop [] output = output"
| "MarshalJSON_loop ((key, val) # d) output =
     MarshalJSON_loop d
       (if \<not> isEmptyValue val then AList.update key (wireEncode val) output else output)"

definition MarshalJSON :: "Document \<Rightarrow> buffer" where
  "MarshalJSON d = json_Marshal (MarshalJSON_loop d [])"

text \<open>
  \<^verbatim>\<open>UnmarshalJSON\<close> returns an error value or \<^verbatim>\<open>nil\<close>. The call
  \<^verbatim>\<open>dd[key] = wireDecode(val)\<close> takes a single result, so a node that \<^verbatim>\<open>wireDecode\<close>
  cannot decode cannot come back as that error value: the loop is abandoned there
  (\<open>Aborted\<close>), with the entries already stored left in the document.
\<close>

datatype outcome = Returned "json_error option" | Aborted decode_error

fun UnmarshalJSON_loop ::
  "(string \<times> json) list \<Rightarrow> Document \<Rightarrow> Document \<times> decode_error option" where
  "UnmarshalJSON_loop [] dd = (dd, None)"
| "UnmarshalJSON_loop ((key, val) # raw) dd =
     (case wireDecode val of
        Inl e \<Rightarrow> (dd, Some e)
      | Inr v \<Rightarrow> UnmarshalJSON_loop raw (AList.update key v dd))"

text \<open>
  The receiver \<^verbatim>\<open>d *Document\<close> is the state: \<open>None\<close> is the nil map, and the pair
  returned holds the document after the call.
\<close>

definition UnmarshalJSON :: "Document option \<Rightarrow> buffer \<Rightarrow> Document option \<times> outcome" where
  "UnmarshalJSON d buf =
     (case json_Unmarshal buf of
        Inl err \<Rightarrow> (d, Returned (Some err))
      | Inr raw \<Rightarrow>
          (let dd = (case d of None \<Rightarrow> [] | Some m \<Rightarrow> m)
           in case UnmarshalJSON_loop raw dd of
                (dd', None) \<Rightarrow> (Some dd', Returned None)
              | (dd', Some e) \<Rightarrow> (Some dd', Aborted e)))"

text \<open>
  A value is non-empty at every depth when it is not empty and no element of a list in
  it and no field of a document in it is empty.
\<close>

fun nonempty_deep :: "val \<Rightarrow> bool" where
  "nonempty_deep (VList l) = (\<not> isEmptyValue (VList l) \<and> list_all nonempty_deep l)"
| "nonempty_deep (VDocument m) =
     (\<not> isEmptyValue (VDocument m) \<and> list_all (\<lambda>(key, val). nonempty_deep val) m)"
| "nonempty_deep v = (\<not> isEmptyValue v)"

text \<open>
  Every string in a value is valid UTF-8: the strings, the texts of the numbers, the
  elements of the sets and the keys of the documents, at every depth. (A \<^verbatim>\<open>Binary\<close> is
  written in base64, which is ASCII.)
\<close>

fun utf8_deep :: "val \<Rightarrow> bool" where
  "utf8_deep (VString s) = valid_utf8 s"
| "utf8_deep (VNumber n) = valid_utf8 n"
| "utf8_deep (VStringSet ss) = list_all valid_utf8 ss"
| "utf8_deep (VNumberSet ns) = list_all valid_utf8 ns"
| "utf8_deep (VBinarySet bs) = list_all valid_utf8 bs"
| "utf8_deep (VList l) = list_all utf8_deep l"
| "utf8_deep (VDocument m) = list_all (\<lambda>(key, val). valid_utf8 key \<and> utf8_deep val) m"
| "utf8_deep v = True"

section \<open>The typed accessors\<close>

definition GetString :: "Document \<Rightarrow> string \<Rightarrow> panic + string" where
  "GetString d key =
     (if index d key \<noteq> VNil
      then (case index d key of VString s \<Rightarrow> Inr s | _ \<Rightarrow> Inl TypeAssertion)
      else Inr '''')"

definition GetNumber :: "Document \<Rightarrow> string \<Rightarrow> panic + string" where
  "GetNumber d key =
     (if index d key \<noteq> VNil
      then (case index d key of VNumber n \<Rightarrow> Inr n | _ \<Rightarrow> Inl TypeAssertion)
      else Inr '''')"

definition GetStringSet :: "Document \<Rightarrow> string \<Rightarrow> panic + string list" where
  "GetStringSet d key =
     (if index d key \<noteq> VNil
      then (case index d key of VStringSet ss \<Rightarrow> Inr ss | _ \<Rightarrow> Inl TypeAssertion)
      else Inr [])"

definition GetList :: "Document \<Rightarrow> string \<Rightarrow> panic + val list" where
  "GetList d key =
     (if index d key \<noteq> VNil
      then (case index d key of VList l \<Rightarrow> Inr l | _ \<Rightarrow> Inl TypeAssertion)
      else Inr [])"

definition GetBool :: "Document \<Rightarrow> string \<Rightarrow> panic + bool" where
  "GetBool d key =
     (if index d key \<noteq> VNil
      then (case index d key of
              VNumber number \<Rightarrow>
                (let (res, _) = IntVal number
                 in if res = 1 then Inr True else Inr False)
            | _ \<Rightarrow> Inl TypeAssertion)
      else Inr False)"

subsection \<open>\<^verbatim>\<open>GetTime\<close>\<close>

record Time =
  year :: nat
  month :: nat
  day :: nat
  hour :: nat
  minute :: nat
  second :: nat
  nanosecond :: nat

text \<open>
  \<^verbatim>\<open>time.ParseInLocation\<close> is not code of this repository; what follows is the part of
  it that the two layouts of \<^verbatim>\<open>GetTime\<close> use, after the source of package \<^verbatim>\<open>time\<close>.
  \<^verbatim>\<open>isDigit(s, i)\<close>, \<^verbatim>\<open>getnum(s, fixed)\<close> (two digits, or one when \<^verbatim>\<open>fixed\<close> is false and
  no second digit follows), the four-digit year, a literal character of the layout,
  and the fractional second that the parser accepts after the seconds field although
  the layout has none: a period or comma and digits, of which nine are kept.
\<close>

definition isDigitAt :: "string \<Rightarrow> nat \<Rightarrow> bool" where
  "isDigitAt s i = (i < length s \<and> isDigit (s ! i))"

definition getnum :: "string \<Rightarrow> bool \<Rightarrow> (nat \<times> string) option" where
  "getnum s fixed =
     (if \<not> isDigitAt s 0 then None
      else if \<not> isDigitAt s 1
      then (if fixed then None else Some (digits_val 0 (take 1 s), drop 1 s))
      else Some (digits_val 0 (take 2 s), drop 2 s))"

definition getyear :: "string \<Rightarrow> (nat \<times> string) option" where
  "getyear s =
     (if length s < 4 \<or> \<not> isDigitAt s 0 then None
      else if list_all isDigit (take 4 s) then Some (digits_val 0 (take 4 s), drop 4 s)
      else None)"

definition literal :: "char \<Rightarrow> string \<Rightarrow> string option" where
  "literal c s = (case s of [] \<Rightarrow> None | x # r \<Rightarrow> if x = c then Some r else None)"

definition commaOrPeriod :: "char \<Rightarrow> bool" where
  "commaOrPeriod c = (c = CHR ''.'' \<or> c = CHR '','')"

definition fraction :: "string \<Rightarrow> nat \<times> string" where
  "fraction s =
     (if 2 \<le> length s \<and> commaOrPeriod (s ! 0) \<and> isDigitAt s 1
      then (let ds = takeWhile isDigit (drop 1 s); kept = take 9 ds
            in (digits_val 0 kept * 10 ^ (9 - length kept), drop (1 + length ds) s))
      else (0, s))"

definition isLeap :: "nat \<Rightarrow> bool" where
  "isLeap y = (y mod 4 = 0 \<and> (y mod 100 \<noteq> 0 \<or> y mod 400 = 0))"

definition daysIn :: "nat \<Rightarrow> nat \<Rightarrow> nat" where
  "daysIn m y =
     (if m = 2 then (if isLeap y then 29 else 28)
      else if m = 4 \<or> m = 6 \<or> m = 9 \<or> m = 11 then 30 else 31)"

text \<open>
  A layout is the sequence of its chunks, as \<^verbatim>\<open>nextStdChunk\<close> cuts it. The loop of the
  parser takes the chunks in order. A field that does not parse is \<open>BadFormat\<close>; a
  month, hour, minute or second out of range is reported at its field; text left
  after the last chunk is \<open>ExtraText\<close>; the day is checked against the month and the
  year at the end.
\<close>

datatype chunk =
    stdLongYear | stdZeroMonth | stdZeroDay | stdHour | stdZeroMinute | stdZeroSecond
  | prefix char

fun parse :: "chunk list \<Rightarrow> string \<Rightarrow> Time \<Rightarrow> time_error + Time" where
  "parse [] s t =
     (if s \<noteq> [] then Inl ExtraText
      else if day t < 1 \<or> daysIn (month t) (year t) < day t then Inl OutOfRange
      else Inr t)"
| "parse (prefix c # layout) s t =
     (case literal c s of None \<Rightarrow> Inl BadFormat | Some r \<Rightarrow> parse layout r t)"
| "parse (stdLongYear # layout) s t =
     (case getyear s of
        None \<Rightarrow> Inl BadFormat
      | Some (y, r) \<Rightarrow> parse layout r (t\<lparr>year := y\<rparr>))"
| "parse (stdZeroMonth # layout) s t =
     (case getnum s True of
        None \<Rightarrow> Inl BadFormat
      | Some (m, r) \<Rightarrow>
          if m \<le> 0 \<or> 12 < m then Inl OutOfRange else parse layout r (t\<lparr>month := m\<rparr>))"
| "parse (stdZeroDay # layout) s t =
     (case getnum s True of
        None \<Rightarrow> Inl BadFormat
      | Some (d, r) \<Rightarrow> parse layout r (t\<lparr>day := d\<rparr>))"
| "parse (stdHour # layout) s t =
     (case getnum s False of
        None \<Rightarrow> Inl BadFormat
      | Some (h, r) \<Rightarrow>
          if 24 \<le> h then Inl OutOfRange else parse layout r (t\<lparr>hour := h\<rparr>))"
| "parse (stdZeroMinute # layout) s t =
     (case getnum s True of
        None \<Rightarrow> Inl BadFormat
      | Some (m, r) \<Rightarrow>
          if 60 \<le> m then Inl OutOfRange else parse layout r (t\<lparr>minute := m\<rparr>))"
| "parse (stdZeroSecond # layout) s t =
     (case getnum s True of
        None \<Rightarrow> Inl BadFormat
      | Some (sec, r) \<Rightarrow>
          if 60 \<le> sec then Inl OutOfRange
          else (let (nsec, r') = fraction r
                in parse layout r' (t\<lparr>second := sec, nanosecond := nsec\<rparr>)))"

definition ParseInLocation :: "chunk list \<Rightarrow> string \<Rightarrow> time_error + Time" where
  "ParseInLocation layout s =
     parse layout s
       \<lparr>year = 0, month = 1, day = 1, hour = 0, minute = 0, second = 0, nanosecond = 0\<rparr>"

text \<open>
  Modelled from the spec: the layout constant \<^verbatim>\<open>iso8601compact\<close>, which \<^verbatim>\<open>GetTime\<close>
  passes to \<^verbatim>\<open>time.ParseInLocation\<close> and which another file of the package declares.
  The specification calls it "a fixed textual timestamp format (compact ISO-8601 basic
  form, UTC)": the layout \<^verbatim>\<open>"20060102T150405Z"\<close>.
\<close>

definition iso8601compact :: "chunk list" where
  "iso8601compact =
     [stdLongYear, stdZeroMonth, stdZeroDay, prefix CHR ''T'',
      stdHour, stdZeroMinute, stdZeroSecond, prefix CHR ''Z'']"

definition ParseInLocation_iso8601compact :: "string \<Rightarrow> time_error + Time" where
  "ParseInLocation_iso8601compact s = ParseInLocation iso8601compact s"

text \<open>
  \<^verbatim>\<open>GetTime\<close> of \<^verbatim>\<open>types.go\<close>. Its result \<^verbatim>\<open>t *time.Time\<close> is an option: \<open>None\<close> is the
  nil pointer.
\<close>

definition GetTime :: "Document \<Rightarrow> string \<Rightarrow> panic + Time option" where
  "GetTime d key =
     (let val = index d key
      in if val \<noteq> VNil
         then (case val of
                 VString s \<Rightarrow>
                   (case ParseInLocation_iso8601compact s of
                      Inl err \<Rightarrow> Inl (TimeParse err)
                    | Inr parsed \<Rightarrow> Inr (Some parsed))
               | _ \<Rightarrow> Inl TypeAssertion)
         else Inr None)"

text \<open>
  The repository also holds an earlier revision of \<^verbatim>\<open>types.go\<close> (\<^verbatim>\<open>part_001\<close>, without
  \<^verbatim>\<open>GetList\<close> and \<^verbatim>\<open>GetBool\<close>). Its \<^verbatim>\<open>GetTime\<close> reads the string
  with \<^verbatim>\<open>GetString\<close>, parses it with the layout \<^verbatim>\<open>"2006-01-02T15:04:05Z"\<close> written in
  the call, and returns \<^verbatim>\<open>nil\<close> on every parse error.
\<close>

definition ParseInLocation_extended :: "string \<Rightarrow> time_error + Time" where
  "ParseInLocation_extended s =
     ParseInLocation
       [stdLongYear, prefix CHR ''-'', stdZeroMonth, prefix CHR ''-'', stdZeroDay,
        prefix CHR ''T'', stdHour, prefix CHR '':'', stdZeroMinute, prefix CHR '':'',
        stdZeroSecond, prefix CHR ''Z''] s"

definition GetTime_part_001 :: "Document \<Rightarrow> string \<Rightarrow> panic + Time option" where
  "GetTime_part_001 d key =
     (case GetString d key of
        Inl p \<Rightarrow> Inl p
      | Inr iso8601 \<Rightarrow>
          (case ParseInLocation_extended iso8601 of
             Inl err \<Rightarrow> Inr None
           | Inr t \<Rightarrow> Inr (Some t)))"

section \<open>\<^verbatim>\<open>Param\<close>\<close>

record Param =
  Key :: string
  Value :: val

definition Param_AsParams :: "Param \<Rightarrow> Param list" where
  "Param_AsParams p = [p]"

section \<open>Base64 decodes what it encodes\<close>

lemma position_nth: "distinct xs \<Longrightarrow> n < length xs \<Longrightarrow> position (xs ! n) xs = Some n"
proof (induction xs arbitrary: n)
  case Nil
  then show ?case by simp
next
  case (Cons y ys)
  show ?case
  proof (cases n)
    case 0
    then show ?thesis by simp
  next
    case (Suc m)
    with Cons.prems have "m < length ys" "distinct ys" "ys ! m \<noteq> y" by auto
    with Cons.IH[of m] Suc show ?thesis by simp
  qed
qed

lemma b64_alphabet_distinct: "distinct b64_alphabet"
  by (simp add: b64_alphabet_def)

lemma b64_alphabet_length: "length b64_alphabet = 64"
  by (simp add: b64_alphabet_def)

lemma b64_index_char: "n < 64 \<Longrightarrow> b64_index (b64_char n) = Some n"
  by (simp add: b64_index_def b64_char_def position_nth b64_alphabet_distinct b64_alphabet_length)

lemma b64_char_not_pad: "n < 64 \<Longrightarrow> b64_char n \<noteq> CHR ''=''"
proof -
  assume "n < 64"
  then have "b64_char n \<in> set b64_alphabet"
    by (simp add: b64_char_def b64_alphabet_length)
  moreover have "CHR ''='' \<notin> set b64_alphabet"
    by (simp add: b64_alphabet_def)
  ultimately show ?thesis by metis
qed

lemma of_char_bound: "(of_char c :: nat) < 256"
  by (cases c) (simp add: of_char_def)

lemma b64_bounds:
  fixes x y z :: nat
  assumes "x < 256" "y < 256" "z < 256"
  shows "x div 4 < 64" "x mod 4 * 16 < 64" "x mod 4 * 16 + y div 16 < 64"
    "y mod 16 * 4 < 64" "y mod 16 * 4 + z div 64 < 64" "z mod 64 < 64"
proof -
  have a: "x mod 4 < 4" "y mod 16 < 16" by simp_all
  have b: "y div 16 < 16" "z div 64 < 4" using assms by simp_all
  show "x div 4 < 64" using assms by simp
  show "x mod 4 * 16 < 64" using a by linarith
  show "x mod 4 * 16 + y div 16 < 64" using a b by linarith
  show "y mod 16 * 4 < 64" using a by linarith
  show "y mod 16 * 4 + z div 64 < 64" using a b by linarith
  show "z mod 64 < 64" by simp
qed

lemma b64_regroup:
  fixes x y z :: nat
  assumes "y < 256" "z < 256"
  shows "x div 4 * 4 + (x mod 4 * 16) div 16 = x"
    "x div 4 * 4 + (x mod 4 * 16 + y div 16) div 16 = x"
    "(x mod 4 * 16 + y div 16) mod 16 * 16 + (y mod 16 * 4) div 4 = y"
    "(x mod 4 * 16 + y div 16) mod 16 * 16 + (y mod 16 * 4 + z div 64) div 4 = y"
    "(y mod 16 * 4 + z div 64) mod 4 * 64 + z mod 64 = z"
proof -
  have b: "y div 16 < 16" "z div 64 < 4" using assms by simp_all
  have hi: "(x mod 4 * 16 + y div 16) div 16 = x mod 4" using b by simp
  have lo: "(x mod 4 * 16 + y div 16) mod 16 = y div 16" using b by simp
  have hi2: "(y mod 16 * 4 + z div 64) div 4 = y mod 16" using b by simp
  have lo2: "(y mod 16 * 4 + z div 64) mod 4 = z div 64" using b by simp
  show "x div 4 * 4 + (x mod 4 * 16) div 16 = x" by simp
  show "x div 4 * 4 + (x mod 4 * 16 + y div 16) div 16 = x" by (simp add: hi)
  show "(x mod 4 * 16 + y div 16) mod 16 * 16 + (y mod 16 * 4) div 4 = y"
    unfolding lo by simp
  show "(x mod 4 * 16 + y div 16) mod 16 * 16 + (y mod 16 * 4 + z div 64) div 4 = y"
    unfolding lo hi2 by simp
  show "(y mod 16 * 4 + z div 64) mod 4 * 64 + z mod 64 = z"
    unfolding lo2 by simp
qed

lemma b64_decode_pad2:
  "i0 < 64 \<Longrightarrow> i1 < 64 \<Longrightarrow>
   b64_decode [b64_char i0, b64_char i1, CHR ''='', CHR ''='']
     = Some [char_of (i0 * 4 + i1 div 16)]"
  by (simp add: b64_index_char)

lemma b64_decode_pad1:
  "i0 < 64 \<Longrightarrow> i1 < 64 \<Longrightarrow> i2 < 64 \<Longrightarrow>
   b64_decode [b64_char i0, b64_char i1, b64_char i2, CHR ''='']
     = Some [char_of (i0 * 4 + i1 div 16), char_of (i1 mod 16 * 16 + i2 div 4)]"
  by (simp add: b64_index_char b64_char_not_pad)

lemma b64_decode_quad:
  "i0 < 64 \<Longrightarrow> i1 < 64 \<Longrightarrow> i2 < 64 \<Longrightarrow> i3 < 64 \<Longrightarrow>
   b64_decode (b64_char i0 # b64_char i1 # b64_char i2 # b64_char i3 # rest)
     = map_option (\<lambda>bs. char_of (i0 * 4 + i1 div 16) # char_of (i1 mod 16 * 16 + i2 div 4)
                           # char_of (i2 mod 4 * 64 + i3) # bs) (b64_decode rest)"
  by (simp add: b64_index_char b64_char_not_pad)

lemma b64_roundtrip: "b64_decode (b64_encode bs) = Some bs"
proof (induction bs rule: b64_encode.induct)
  case 1
  then show ?case by simp
next
  case (2 a)
  define x :: nat where "x = of_char a"
  have x: "x < 256" "char_of x = a" by (simp_all add: x_def of_char_bound)
  note i = b64_bounds[OF x(1) x(1) x(1)]
  have "b64_decode [b64_char (x div 4), b64_char (x mod 4 * 16), CHR ''='', CHR ''='']
          = Some [a]"
    unfolding b64_decode_pad2[OF i(1) i(2)] b64_regroup(1)[OF x(1) x(1)] x(2) ..
  then show ?case by (simp add: x_def Let_def)
next
  case (3 a b)
  define x :: nat where "x = of_char a"
  define y :: nat where "y = of_char b"
  have x: "x < 256" "char_of x = a" by (simp_all add: x_def of_char_bound)
  have y: "y < 256" "char_of y = b" by (simp_all add: y_def of_char_bound)
  note i = b64_bounds[OF x(1) y(1) y(1)]
  have "b64_decode [b64_char (x div 4), b64_char (x mod 4 * 16 + y div 16),
          b64_char (y mod 16 * 4), CHR ''=''] = Some [a, b]"
    unfolding b64_decode_pad1[OF i(1) i(3) i(4)] b64_regroup(2,3)[OF y(1) y(1)] x(2) y(2) ..
  then show ?case by (simp add: x_def y_def Let_def)
next
  case (4 a b c rest)
  define x :: nat where "x = of_char a"
  define y :: nat where "y = of_char b"
  define z :: nat where "z = of_char c"
  have x: "x < 256" "char_of x = a" by (simp_all add: x_def of_char_bound)
  have y: "y < 256" "char_of y = b" by (simp_all add: y_def of_char_bound)
  have z: "z < 256" "char_of z = c" by (simp_all add: z_def of_char_bound)
  note i = b64_bounds[OF x(1) y(1) z(1)]
  have "b64_decode (b64_char (x div 4) # b64_char (x mod 4 * 16 + y div 16) #
          b64_char (y mod 16 * 4 + z div 64) # b64_char (z mod 64) # b64_encode rest)
        = Some (a # b # c # rest)"
    unfolding b64_decode_quad[OF i(1) i(3) i(5) i(6)] b64_regroup(2,4,5)[OF y(1) z(1)]
      x(2) y(2) z(2) by (simp add: "4.IH")
  then show ?case by (simp add: x_def y_def z_def Let_def)
qed

section \<open>The wire codec decodes what it encodes\<close>

lemma nonempty_deep_nonempty: "nonempty_deep v \<Longrightarrow> \<not> isEmptyValue v"
  by (cases v) simp_all

lemma collect_all_Inr:
  "(\<And>x. x \<in> set xs \<Longrightarrow> f x = Inr (g x)) \<Longrightarrow> collect (map f xs) = Inr (map g xs)"
  by (induction xs) simp_all

lemma collect_wire_string: "collect (map (wire_string \<circ> JString) ss) = Inr ss"
  by (induction ss) (simp_all add: wire_string_def)

lemma filter_nonempty_list:
  "list_all nonempty_deep l \<Longrightarrow> filter (\<lambda>x. \<not> isEmptyValue x) l = l"
  by (induction l) (simp_all add: nonempty_deep_nonempty)

lemma filter_nonempty_fields:
  "list_all (\<lambda>(key, val). nonempty_deep val) m \<Longrightarrow>
   filter (\<lambda>(key, val). \<not> isEmptyValue val) m = m"
  by (induction m) (auto simp: nonempty_deep_nonempty)

lemma wire_roundtrip: "nonempty_deep v \<Longrightarrow> wireDecode (wireEncode v) = Inr v"
proof (induction v)
  case (VBinary b)
  then show ?case by (simp add: b64_roundtrip)
next
  case (VStringSet ss)
  then show ?case by (simp add: collect_wire_string)
next
  case (VNumberSet ns)
  then show ?case by (simp add: collect_wire_string)
next
  case (VBinarySet bs)
  then show ?case by (simp add: collect_wire_string)
next
  case (VList l)
  from VList.prems have all: "list_all nonempty_deep l" by simp
  have "collect (map (wireDecode \<circ> wireEncode) l) = Inr (map (\<lambda>x. x) l)"
  proof (rule collect_all_Inr)
    fix x assume "x \<in> set l"
    with VList.IH all show "(wireDecode \<circ> wireEncode) x = Inr x"
      by (simp add: list_all_iff)
  qed
  then show ?case
    by (simp add: filter_nonempty_list[OF all])
next
  case (VDocument m)
  let ?dec = "\<lambda>(key, node). case wireDecode node of Inl e \<Rightarrow> Inl e | Inr v \<Rightarrow> Inr (key, v)"
  let ?enc = "\<lambda>(key, val). (key, wireEncode val)"
  from VDocument.prems have all: "list_all (\<lambda>(key, val). nonempty_deep val) m" by simp
  have "collect (map (?dec \<circ> ?enc) m) = Inr (map (\<lambda>x. x) m)"
  proof (rule collect_all_Inr)
    fix x assume x: "x \<in> set m"
    obtain key val where kv: "x = (key, val)" by (cases x)
    from x all kv have "nonempty_deep val" by (auto simp: list_all_iff)
    moreover have "val \<in> Basic_BNFs.snds x" by (simp add: kv)
    ultimately have "wireDecode (wireEncode val) = Inr val"
      using VDocument.IH[OF x] by blast
    then show "(?dec \<circ> ?enc) x = Inr x" by (simp add: kv)
  qed
  then show ?case
    by (simp add: filter_nonempty_fields[OF all])
qed simp_all

section \<open>\<^verbatim>\<open>Document.MarshalJSON\<close>: which fields are written\<close>

lemma update_fresh: "k \<notin> fst ` set al \<Longrightarrow> AList.update k v al = al @ [(k, v)]"
  by (induction al) auto

lemma MarshalJSON_loop_keys:
  "fst ` set (MarshalJSON_loop d out)
     = fst ` set out \<union> {k. \<exists>v. (k, v) \<in> set d \<and> \<not> isEmptyValue v}"
proof (induction d arbitrary: out)
  case Nil
  then show ?case by simp
next
  case (Cons kv d)
  obtain key val where kv: "kv = (key, val)" by (cases kv)
  show ?case
    unfolding kv MarshalJSON_loop.simps Cons.IH
    by (auto simp: dom_update)
qed

lemma MarshalJSON_loop_other:
  "k \<notin> fst ` set d \<Longrightarrow> map_of (MarshalJSON_loop d out) k = map_of out k"
proof (induction d arbitrary: out)
  case Nil
  then show ?case by simp
next
  case (Cons kv d)
  obtain key val where kv: "kv = (key, val)" by (cases kv)
  from Cons.prems have "k \<noteq> key" "k \<notin> fst ` set d" by (auto simp: kv)
  then show ?case
    by (simp add: kv Cons.IH update_conv')
qed

lemma MarshalJSON_loop_lookup:
  "distinct (map fst d) \<Longrightarrow> map_of d k = Some v \<Longrightarrow> \<not> isEmptyValue v \<Longrightarrow>
   map_of (MarshalJSON_loop d out) k = Some (wireEncode v)"
proof (induction d arbitrary: out)
  case Nil
  then show ?case by simp
next
  case (Cons kv d)
  obtain key val where kv: "kv = (key, val)" by (cases kv)
  show ?case
  proof (cases "k = key")
    case True
    with Cons.prems have v: "val = v" and fresh: "key \<notin> fst ` set d" by (auto simp: kv)
    show ?thesis
      using Cons.prems(3)
      by (simp add: kv v True MarshalJSON_loop_other[OF fresh] update_conv')
  next
    case False
    with Cons.prems have "distinct (map fst d)" "map_of d k = Some v" by (auto simp: kv)
    then show ?thesis using Cons.prems(3) by (simp add: kv Cons.IH)
  qed
qed

lemma isEmptyValue_cases:
  "isEmptyValue v \<longleftrightarrow>
     v = VNil \<or> v = VString [] \<or> v = VNumber [] \<or> v = VBinary [] \<or> v = VStringSet [] \<or>
     v = VNumberSet [] \<or> v = VBinarySet [] \<or> v = VList [] \<or> v = VDocument []"
  by (cases v) (simp_all add: isEmptyValue_def)

text \<open>
  C2, as the code has it. For every Document \<open>d\<close> (a map: every key once) and every key
  \<open>k\<close> of \<open>d\<close> with value \<open>v\<close>, \<^verbatim>\<open>MarshalJSON\<close> omits the field \<open>k\<close> from its output
  exactly when \<open>isEmptyValue v\<close>, and writes \<open>wireEncode v\<close> under \<open>k\<close> otherwise; a value
  is empty exactly when it is \<^verbatim>\<open>nil\<close> or a zero-length string, Number, byte sequence,
  set, list or map. A zero value of another kind is not empty: the Bool \<^verbatim>\<open>false\<close> is
  written.
\<close>

theorem MarshalJSON_omits_empty:
  assumes "distinct (map fst d)" and "map_of d k = Some v"
    and "MarshalJSON d = Text (JObject out)"
  shows "(map_of out k = None \<longleftrightarrow> isEmptyValue v)
       \<and> (\<not> isEmptyValue v \<longrightarrow> map_of out k = Some (wireEncode v))
       \<and> (isEmptyValue v \<longleftrightarrow>
            v = VNil \<or> v = VString [] \<or> v = VNumber [] \<or> v = VBinary [] \<or> v = VStringSet [] \<or>
            v = VNumberSet [] \<or> v = VBinarySet [] \<or> v = VList [] \<or> v = VDocument [])"
proof -
  from assms(3) have out: "out = MarshalJSON_loop d []"
    by (simp add: MarshalJSON_def json_Marshal_def)
  from assms(2) have in_d: "(k, v) \<in> set d" by (rule map_of_SomeD)
  have uniq: "v' = v" if "(k, v') \<in> set d" for v'
    using that assms(1,2) by simp
  have "k \<in> fst ` set out \<longleftrightarrow> (\<exists>v'. (k, v') \<in> set d \<and> \<not> isEmptyValue v')"
    unfolding out MarshalJSON_loop_keys by simp
  also have "\<dots> \<longleftrightarrow> \<not> isEmptyValue v"
    using in_d uniq by blast
  finally have a: "map_of out k = None \<longleftrightarrow> isEmptyValue v"
    by (simp add: map_of_eq_None_iff)
  have b: "\<not> isEmptyValue v \<longrightarrow> map_of out k = Some (wireEncode v)"
    unfolding out using MarshalJSON_loop_lookup[OF assms(1,2)] by simp
  from a b show ?thesis
    by (simp only: isEmptyValue_cases[symmetric] simp_thms)
qed

text \<open>
  The example of the specification: \<^verbatim>\<open>tags\<close>, an empty StringSet, is absent from the
  encoding of \<^verbatim>\<open>Document{"name": "abc", "tags": StringSet{}, "score": Number("42")}\<close>.
\<close>

theorem MarshalJSON_omits_empty_witness:
  "distinct (map fst [(''name'', VString ''abc''), (''tags'', VStringSet []),
                      (''score'', VNumber ''42'')])
   \<and> map_of [(''name'', VString ''abc''), (''tags'', VStringSet []),
              (''score'', VNumber ''42'')] ''tags'' = Some (VStringSet [])
   \<and> MarshalJSON [(''name'', VString ''abc''), (''tags'', VStringSet []),
                   (''score'', VNumber ''42'')]
       = Text (JObject [(''name'', JObject [(''S'', JString ''abc'')]),
                        (''score'', JObject [(''N'', JString ''42'')])])
   \<and> map_of [(''name'', JObject [(''S'', JString ''abc'')]),
              (''score'', JObject [(''N'', JString ''42'')])] ''tags'' = None
   \<and> isEmptyValue (VStringSet [])"
  using MarshalJSON_omits_empty
          [of "[(''name'', VString ''abc''), (''tags'', VStringSet []),
                (''score'', VNumber ''42'')]"
              "''tags''" "VStringSet []"
              "[(''name'', JObject [(''S'', JString ''abc'')]),
                (''score'', JObject [(''N'', JString ''42'')])]"]
  by (simp add: MarshalJSON_def json_Marshal_def isEmptyValue_def)

text \<open>
  C2 as the specification states it fails at the Bool \<^verbatim>\<open>false\<close>: it is the zero value
  of its kind, hence empty in the words of the specification, and \<^verbatim>\<open>isEmptyValue\<close> has
  no case for the kind \<^verbatim>\<open>Bool\<close>, so the field is written.
\<close>

theorem MarshalJSON_keeps_false:
  "spec_empty (VBool False) \<and>
   MarshalJSON [(''flag'', VBool False)]
     = Text (JObject [(''flag'', JObject [(''BOOL'', JBool False)])])"
  by (simp add: spec_empty_def zero_value_def MarshalJSON_def json_Marshal_def isEmptyValue_def)

section \<open>\<^verbatim>\<open>Document.UnmarshalJSON\<close>: merging, and failing\<close>

lemma UnmarshalJSON_loop_frame:
  "UnmarshalJSON_loop raw dd = (dd', None) \<Longrightarrow> k \<notin> fst ` set raw \<Longrightarrow>
   map_of dd' k = map_of dd k"
proof (induction raw arbitrary: dd)
  case Nil
  then show ?case by simp
next
  case (Cons kn raw)
  obtain key node where kn: "kn = (key, node)" by (cases kn)
  from Cons.prems(2) have ne: "k \<noteq> key" and rest: "k \<notin> fst ` set raw" by (auto simp: kn)
  from Cons.prems(1) obtain v where v: "wireDecode node = Inr v"
    and loop: "UnmarshalJSON_loop raw (AList.update key v dd) = (dd', None)"
    by (auto simp: kn split: sum.splits)
  from Cons.IH[OF loop rest] ne show ?case by (simp add: update_conv')
qed

lemma UnmarshalJSON_loop_stored:
  "UnmarshalJSON_loop raw dd = (dd', None) \<Longrightarrow> distinct (map fst raw) \<Longrightarrow>
   (k, node) \<in> set raw \<Longrightarrow> \<exists>v. wireDecode node = Inr v \<and> map_of dd' k = Some v"
proof (induction raw arbitrary: dd)
  case Nil
  then show ?case by simp
next
  case (Cons kn raw)
  obtain key n where kn: "kn = (key, n)" by (cases kn)
  from Cons.prems(1) obtain v where v: "wireDecode n = Inr v"
    and loop: "UnmarshalJSON_loop raw (AList.update key v dd) = (dd', None)"
    by (auto simp: kn split: sum.splits)
  from Cons.prems(2) have fresh: "key \<notin> fst ` set raw" and dist: "distinct (map fst raw)"
    by (auto simp: kn)
  show ?case
  proof (cases "(k, node) = (key, n)")
    case True
    from UnmarshalJSON_loop_frame[OF loop fresh] have "map_of dd' key = Some v"
      by (simp add: update_conv')
    with True v show ?thesis by simp
  next
    case False
    with Cons.prems(3) have "(k, node) \<in> set raw" by (auto simp: kn)
    from Cons.IH[OF loop dist this] show ?thesis .
  qed
qed

text \<open>
  C3. Top-level decode merges. Let \<open>raw\<close> be the field map \<^verbatim>\<open>json.Unmarshal\<close> reads from
  the buffer (a map: every key once), and let the decode succeed (\<^verbatim>\<open>UnmarshalJSON\<close>
  returns \<^verbatim>\<open>nil\<close>). Then the document is initialized afterwards, also when it was nil
  before; every key that is not a key of \<open>raw\<close> maps to what it mapped to before (for a
  nil document: to nothing); and every key of \<open>raw\<close> maps to the decoded incoming value.
\<close>

theorem UnmarshalJSON_merges:
  assumes "json_Unmarshal buf = Inr raw" and "distinct (map fst raw)"
    and "UnmarshalJSON d buf = (d', Returned None)"
  shows "\<exists>dd'. d' = Some dd'
           \<and> (\<forall>k. k \<notin> fst ` set raw \<longrightarrow>
                  map_of dd' k = map_of (case d of None \<Rightarrow> [] | Some m \<Rightarrow> m) k)
           \<and> (\<forall>(k, node) \<in> set raw. \<exists>v. wireDecode node = Inr v \<and> map_of dd' k = Some v)"
proof -
  let ?dd = "case d of None \<Rightarrow> [] | Some m \<Rightarrow> m"
  from assms(1,3) obtain dd' where d': "d' = Some dd'"
    and loop: "UnmarshalJSON_loop raw ?dd = (dd', None)"
    by (auto simp: UnmarshalJSON_def Let_def split: prod.splits option.splits)
  have "\<forall>k. k \<notin> fst ` set raw \<longrightarrow> map_of dd' k = map_of ?dd k"
    using UnmarshalJSON_loop_frame[OF loop] by blast
  moreover have "\<forall>(k, node) \<in> set raw. \<exists>v. wireDecode node = Inr v \<and> map_of dd' k = Some v"
    using UnmarshalJSON_loop_stored[OF loop assms(2)] by blast
  ultimately show ?thesis using d' by blast
qed

text \<open>
  The example of the specification: decoding \<^verbatim>\<open>{"b": {"S":"y"}}\<close> into the Document
  \<^verbatim>\<open>{"a": "x"}\<close> yields \<^verbatim>\<open>{"a": "x", "b": "y"}\<close>; into a nil Document, \<^verbatim>\<open>{"b": "y"}\<close>.
\<close>

theorem UnmarshalJSON_merges_witness:
  "json_Unmarshal (Text (JObject [(''b'', JObject [(''S'', JString ''y'')])]))
     = Inr [(''b'', JObject [(''S'', JString ''y'')])]
   \<and> distinct (map fst [(''b'', JObject [(''S'', JString ''y'')])])
   \<and> UnmarshalJSON (Some [(''a'', VString ''x'')])
        (Text (JObject [(''b'', JObject [(''S'', JString ''y'')])]))
     = (Some [(''a'', VString ''x''), (''b'', VString ''y'')], Returned None)
   \<and> UnmarshalJSON None (Text (JObject [(''b'', JObject [(''S'', JString ''y'')])]))
     = (Some [(''b'', VString ''y'')], Returned None)"
  using UnmarshalJSON_merges
          [of "Text (JObject [(''b'', JObject [(''S'', JString ''y'')])])"
              "[(''b'', JObject [(''S'', JString ''y'')])]"
              "Some [(''a'', VString ''x'')]"
              "Some [(''a'', VString ''x''), (''b'', VString ''y'')]"]
        UnmarshalJSON_merges
          [of "Text (JObject [(''b'', JObject [(''S'', JString ''y'')])])"
              "[(''b'', JObject [(''S'', JString ''y'')])]"
              None
              "Some [(''b'', VString ''y'')]"]
  by (simp add: UnmarshalJSON_def utf8_coerce_def rune_size_def)

text \<open>
  C9, as the code has it. \<^verbatim>\<open>UnmarshalJSON\<close> is atomic on every buffer on which
  \<^verbatim>\<open>json.Unmarshal\<close> reports an error, that is, a buffer that is not well-formed JSON or
  that holds a JSON value other than an object and other than \<^verbatim>\<open>null\<close>: it returns that
  error and leaves the document as it was; a nil document stays nil.
\<close>

theorem UnmarshalJSON_error_atomic:
  assumes "buf = NotJSON
         \<or> (\<exists>j. buf = Text j \<and> j \<noteq> JNull \<and> (\<forall>entries. j \<noteq> JObject entries))"
  shows "\<exists>err. UnmarshalJSON d buf = (d, Returned (Some err))"
proof -
  from assms have "\<exists>err. json_Unmarshal buf = Inl err"
  proof
    assume "buf = NotJSON"
    then show ?thesis by simp
  next
    assume "\<exists>j. buf = Text j \<and> j \<noteq> JNull \<and> (\<forall>entries. j \<noteq> JObject entries)"
    then obtain j where "buf = Text j" "j \<noteq> JNull" "\<forall>entries. j \<noteq> JObject entries"
      by blast
    then show ?thesis by (cases j) simp_all
  qed
  then show ?thesis by (auto simp: UnmarshalJSON_def)
qed

theorem UnmarshalJSON_error_atomic_witness:
  "UnmarshalJSON None NotJSON = (None, Returned (Some SyntaxError))
   \<and> UnmarshalJSON (Some [(''a'', VString ''x'')]) (Text (JArray []))
       = (Some [(''a'', VString ''x'')], Returned (Some UnmarshalTypeError))"
  using UnmarshalJSON_error_atomic[of NotJSON None]
        UnmarshalJSON_error_atomic[of "Text (JArray [])" "Some [(''a'', VString ''x'')]"]
  by (simp add: UnmarshalJSON_def)

text \<open>
  C9 as stated fails at the buffer \<^verbatim>\<open>null\<close>, which is not a JSON object:
  \<^verbatim>\<open>json.Unmarshal\<close> sets \<^verbatim>\<open>raw\<close> to the nil map and reports no error, so
  \<^verbatim>\<open>UnmarshalJSON\<close> returns \<^verbatim>\<open>nil\<close> and a nil document is initialized to the empty
  one.
\<close>

theorem UnmarshalJSON_null_succeeds:
  "json_Unmarshal (Text JNull) = Inr []
   \<and> UnmarshalJSON None (Text JNull) = (Some [], Returned None)"
  by (simp add: UnmarshalJSON_def)

section \<open>Encoding, then decoding\<close>

lemma MarshalJSON_loop_all:
  "distinct (map fst d) \<Longrightarrow> fst ` set d \<inter> fst ` set out = {} \<Longrightarrow>
   list_all (\<lambda>(key, val). nonempty_deep val) d \<Longrightarrow>
   MarshalJSON_loop d out = out @ map (\<lambda>(key, val). (key, wireEncode val)) d"
proof (induction d arbitrary: out)
  case Nil
  then show ?case by simp
next
  case (Cons kv d)
  obtain key val where kv: "kv = (key, val)" by (cases kv)
  from Cons.prems have ne: "\<not> isEmptyValue val" and fresh: "key \<notin> fst ` set out"
    and dist: "distinct (map fst d)" and key: "key \<notin> fst ` set d"
    and all: "list_all (\<lambda>(key, val). nonempty_deep val) d"
    and disj: "fst ` set d \<inter> fst ` set out = {}"
    by (auto simp: kv nonempty_deep_nonempty)
  have "fst ` set d \<inter> fst ` set (out @ [(key, wireEncode val)]) = {}"
    using disj key by auto
  from Cons.IH[OF dist this all] show ?case
    by (simp add: kv ne update_fresh[OF fresh])
qed

lemma UnmarshalJSON_loop_all:
  "distinct (map fst d) \<Longrightarrow> fst ` set d \<inter> fst ` set dd = {} \<Longrightarrow>
   list_all (\<lambda>(key, val). nonempty_deep val) d \<Longrightarrow>
   UnmarshalJSON_loop (map (\<lambda>(key, val). (key, wireEncode val)) d) dd = (dd @ d, None)"
proof (induction d arbitrary: dd)
  case Nil
  then show ?case by simp
next
  case (Cons kv d)
  obtain key val where kv: "kv = (key, val)" by (cases kv)
  from Cons.prems have ne: "nonempty_deep val" and fresh: "key \<notin> fst ` set dd"
    and dist: "distinct (map fst d)" and key: "key \<notin> fst ` set d"
    and all: "list_all (\<lambda>(key, val). nonempty_deep val) d"
    and disj: "fst ` set d \<inter> fst ` set dd = {}"
    by (auto simp: kv)
  have "fst ` set d \<inter> fst ` set (dd @ [(key, val)]) = {}"
    using disj key by auto
  from Cons.IH[OF dist this all] show ?case
    by (simp add: kv wire_roundtrip[OF ne] update_fresh[OF fresh])
qed

subsection \<open>Through the JSON text\<close>

lemma coerce_ascii: "list_all (\<lambda>c. (of_char c :: nat) < 128) s \<Longrightarrow> coerce 0 s = s"
  by (induction s) (simp_all add: rune_size_def)

lemma valid_utf8_ascii: "list_all (\<lambda>c. (of_char c :: nat) < 128) s \<Longrightarrow> valid_utf8 s"
  by (simp add: valid_utf8_def utf8_coerce_def coerce_ascii)

lemma b64_alphabet_ascii: "list_all (\<lambda>c. (of_char c :: nat) < 128) b64_alphabet"
  by (simp add: b64_alphabet_def)

lemma b64_char_ascii: "n < 64 \<Longrightarrow> (of_char (b64_char n) :: nat) < 128"
proof -
  assume "n < 64"
  then have "b64_char n \<in> set b64_alphabet"
    by (simp add: b64_char_def b64_alphabet_length)
  with b64_alphabet_ascii show ?thesis by (simp add: list_all_iff)
qed

lemma b64_encode_ascii: "list_all (\<lambda>c. (of_char c :: nat) < 128) (b64_encode bs)"
proof (induction bs rule: b64_encode.induct)
  case 1
  then show ?case by simp
next
  case (2 a)
  note i = b64_bounds[OF of_char_bound[of a] of_char_bound[of a] of_char_bound[of a]]
  show ?case by (simp add: Let_def b64_char_ascii[OF i(1)] b64_char_ascii[OF i(2)])
next
  case (3 a b)
  note i = b64_bounds[OF of_char_bound[of a] of_char_bound[of b] of_char_bound[of b]]
  show ?case
    by (simp add: Let_def b64_char_ascii[OF i(1)] b64_char_ascii[OF i(3)] b64_char_ascii[OF i(4)])
next
  case (4 a b c rest)
  note i = b64_bounds[OF of_char_bound[of a] of_char_bound[of b] of_char_bound[of c]]
  show ?case
    using "4.IH"
    by (simp add: Let_def b64_char_ascii[OF i(1)] b64_char_ascii[OF i(3)]
        b64_char_ascii[OF i(5)] b64_char_ascii[OF i(6)])
qed

lemma readback_filter_valid:
  assumes "\<And>k j. (k, j) \<in> set es \<Longrightarrow> valid_utf8 k"
  shows "filter (\<lambda>(k, j). \<not> list_ex (\<lambda>(k', j'). utf8_coerce k' = utf8_coerce k \<and> k < k') es) es
           = es"
proof -
  have "\<not> list_ex (\<lambda>(k', j'). utf8_coerce k' = utf8_coerce k \<and> k < k') es"
    if "(k, j) \<in> set es" for k j
  proof
    assume "list_ex (\<lambda>(k', j'). utf8_coerce k' = utf8_coerce k \<and> k < k') es"
    then obtain k' j' where in': "(k', j') \<in> set es"
      and eq: "utf8_coerce k' = utf8_coerce k" and less: "k < k'"
      by (auto simp: list_ex_iff)
    from assms[OF that] assms[OF in'] eq have "k' = k" by (simp add: valid_utf8_def)
    with less show False by simp
  qed
  then show ?thesis by (auto simp: filter_id_conv)
qed

lemma readback_object_valid:
  assumes "\<And>k j. (k, j) \<in> set es \<Longrightarrow> valid_utf8 k \<and> readback j = j"
  shows "readback (JObject es) = JObject es"
proof -
  have f: "filter (\<lambda>(k, j). \<not> list_ex (\<lambda>(k', j'). utf8_coerce k' = utf8_coerce k \<and> k < k') es) es
             = es"
    using assms by (intro readback_filter_valid) blast
  have "map (\<lambda>(k, j). (utf8_coerce k, readback j)) es = map (\<lambda>x. x) es"
    using assms by (intro map_cong) (auto simp: valid_utf8_def)
  with f show ?thesis by simp
qed

lemma readback_strings: "list_all valid_utf8 ss \<Longrightarrow> map (readback \<circ> JString) ss = map JString ss"
  by (induction ss) (simp_all add: valid_utf8_def)

lemma valid_S: "valid_utf8 ''S''" "valid_utf8 ''N''" "valid_utf8 ''B''" "valid_utf8 ''BOOL''"
  "valid_utf8 ''NULL''" "valid_utf8 ''SS''" "valid_utf8 ''NS''" "valid_utf8 ''BS''"
  "valid_utf8 ''L''" "valid_utf8 ''M''"
  by (simp_all add: valid_utf8_ascii)

lemma readback_node: "readback j = j \<Longrightarrow> valid_utf8 k \<Longrightarrow> readback (JObject [(k, j)]) = JObject [(k, j)]"
  by (rule readback_object_valid) simp

lemma readback_string_node:
  "valid_utf8 k \<Longrightarrow> valid_utf8 s \<Longrightarrow>
   readback (JObject [(k, JString s)]) = JObject [(k, JString s)]"
  by (rule readback_node) (simp_all add: valid_utf8_def)

lemma readback_strings_node:
  "valid_utf8 k \<Longrightarrow> list_all valid_utf8 ss \<Longrightarrow>
   readback (JObject [(k, JArray (map JString ss))]) = JObject [(k, JArray (map JString ss))]"
  by (rule readback_node) (simp_all add: readback_strings)

lemma readback_wireEncode: "utf8_deep v \<Longrightarrow> readback (wireEncode v) = wireEncode v"
proof (induction v)
  case VNil
  show ?case unfolding wireEncode.simps by (rule readback_node) (simp_all add: valid_S)
next
  case (VString s)
  then show ?case unfolding wireEncode.simps by (intro readback_string_node) (simp_all add: valid_S)
next
  case (VNumber n)
  then show ?case unfolding wireEncode.simps by (intro readback_string_node) (simp_all add: valid_S)
next
  case (VBinary b)
  have "valid_utf8 (b64_encode b)" by (rule valid_utf8_ascii) (rule b64_encode_ascii)
  then show ?case unfolding wireEncode.simps by (intro readback_string_node) (simp_all add: valid_S)
next
  case (VBool b)
  show ?case unfolding wireEncode.simps by (rule readback_node) (simp_all add: valid_S)
next
  case (VStringSet ss)
  then show ?case unfolding wireEncode.simps by (intro readback_strings_node) (simp_all add: valid_S)
next
  case (VNumberSet ns)
  then show ?case unfolding wireEncode.simps by (intro readback_strings_node) (simp_all add: valid_S)
next
  case (VBinarySet bs)
  then show ?case unfolding wireEncode.simps by (intro readback_strings_node) (simp_all add: valid_S)
next
  case (VList l)
  have "map readback (map wireEncode (filter (\<lambda>x. \<not> isEmptyValue x) l))
          = map wireEncode (filter (\<lambda>x. \<not> isEmptyValue x) l)"
    using VList by (auto simp: list_all_iff)
  then have "readback (JArray (map wireEncode (filter (\<lambda>x. \<not> isEmptyValue x) l)))
          = JArray (map wireEncode (filter (\<lambda>x. \<not> isEmptyValue x) l))"
    by simp
  then show ?case unfolding wireEncode.simps by (intro readback_node) (simp_all add: valid_S)
next
  case (VDocument m)
  let ?es = "map (\<lambda>(key, val). (key, wireEncode val))
               (filter (\<lambda>(key, val). \<not> isEmptyValue val) m)"
  have "readback (JObject ?es) = JObject ?es"
  proof (rule readback_object_valid)
    fix k j assume "(k, j) \<in> set ?es"
    then obtain val where in_m: "(k, val) \<in> set m" and j: "j = wireEncode val" by auto
    from VDocument.prems in_m have v: "valid_utf8 k" "utf8_deep val"
      by (auto simp: list_all_iff)
    have "val \<in> Basic_BNFs.snds (k, val)" by simp
    with VDocument.IH[OF in_m] v(2) have "readback (wireEncode val) = wireEncode val" by blast
    with v(1) j show "valid_utf8 k \<and> readback j = j" by simp
  qed
  then show ?case unfolding wireEncode.simps by (intro readback_node) (simp_all add: valid_S)
qed

lemma json_Unmarshal_MarshalJSON:
  assumes "distinct (map fst d)" and "list_all (\<lambda>(key, val). nonempty_deep val) d"
    and "list_all (\<lambda>(key, val). valid_utf8 key \<and> utf8_deep val) d"
  shows "json_Unmarshal (MarshalJSON d) = Inr (map (\<lambda>(key, val). (key, wireEncode val)) d)"
proof -
  let ?es = "map (\<lambda>(key, val). (key, wireEncode val)) d"
  have enc: "MarshalJSON_loop d [] = ?es"
    using MarshalJSON_loop_all[OF assms(1) _ assms(2), of "[]"] by simp
  have "readback (JObject ?es) = JObject ?es"
  proof (rule readback_object_valid)
    fix k j assume "(k, j) \<in> set ?es"
    then obtain val where in_d: "(k, val) \<in> set d" and j: "j = wireEncode val" by auto
    from assms(3) in_d have "valid_utf8 k" "utf8_deep val" by (auto simp: list_all_iff)
    with j show "valid_utf8 k \<and> readback j = j" by (simp add: readback_wireEncode)
  qed
  then show ?thesis
    by (simp add: MarshalJSON_def json_Marshal_def enc del: readback.simps)
qed

text \<open>
  C1, as the code has it. For every value \<open>v\<close> of the vocabulary that is non-empty at
  every depth (it is not empty, and neither is any element of a list or any field of a
  document inside it), decoding the wire node that encodes \<open>v\<close> yields \<open>v\<close>, and the text
  of a Number is the payload of its encoding, character for character. For a Document
  \<open>d\<close> (a map: every key once) with such fields: the loop of \<^verbatim>\<open>UnmarshalJSON\<close>, run on
  the field map that \<^verbatim>\<open>MarshalJSON\<close> builds, gives \<open>d\<close> back in a new Document; and
  when every string in \<open>d\<close> is valid UTF-8, so does \<^verbatim>\<open>UnmarshalJSON\<close> on the bytes that
  \<^verbatim>\<open>MarshalJSON\<close> returns.
\<close>

theorem roundtrip_nonempty_deep:
  assumes "nonempty_deep v"
  shows "wireDecode (wireEncode v) = Inr v
       \<and> (\<forall>n. v = VNumber n \<longrightarrow> wireEncode v = JObject [(''N'', JString n)])
       \<and> (\<forall>d. v = VDocument d \<longrightarrow> distinct (map fst d) \<longrightarrow>
              UnmarshalJSON_loop (MarshalJSON_loop d []) [] = (d, None)
              \<and> (utf8_deep v \<longrightarrow>
                   UnmarshalJSON None (MarshalJSON d) = (Some d, Returned None)))"
proof -
  have "UnmarshalJSON_loop (MarshalJSON_loop d []) [] = (d, None)
      \<and> (utf8_deep v \<longrightarrow> UnmarshalJSON None (MarshalJSON d) = (Some d, Returned None))"
    if v: "v = VDocument d" and dist: "distinct (map fst d)" for d
  proof -
    from assms v have all: "list_all (\<lambda>(key, val). nonempty_deep val) d" by simp
    have enc: "MarshalJSON_loop d [] = map (\<lambda>(key, val). (key, wireEncode val)) d"
      using MarshalJSON_loop_all[OF dist _ all, of "[]"] by simp
    have dec: "UnmarshalJSON_loop (map (\<lambda>(key, val). (key, wireEncode val)) d) [] = (d, None)"
      using UnmarshalJSON_loop_all[OF dist _ all, of "[]"] by simp
    have "UnmarshalJSON None (MarshalJSON d) = (Some d, Returned None)" if "utf8_deep v"
    proof -
      from that v have "list_all (\<lambda>(key, val). valid_utf8 key \<and> utf8_deep val) d" by simp
      from json_Unmarshal_MarshalJSON[OF dist all this] show ?thesis
        by (simp add: UnmarshalJSON_def dec)
    qed
    with enc dec show ?thesis by simp
  qed
  with wire_roundtrip[OF assms] show ?thesis by simp
qed

theorem roundtrip_nonempty_deep_witness:
  "nonempty_deep
     (VDocument [(''name'', VString ''abc''), (''score'', VNumber ''42''),
                 (''blob'', VBinary ''hi''),
                 (''list'', VList [VString ''x'', VNumber ''5'', VBool False])])
   \<and> utf8_deep
     (VDocument [(''name'', VString ''abc''), (''score'', VNumber ''42''),
                 (''blob'', VBinary ''hi''),
                 (''list'', VList [VString ''x'', VNumber ''5'', VBool False])])
   \<and> wireDecode (wireEncode
        (VDocument [(''name'', VString ''abc''), (''score'', VNumber ''42''),
                    (''blob'', VBinary ''hi''),
                    (''list'', VList [VString ''x'', VNumber ''5'', VBool False])]))
     = Inr (VDocument [(''name'', VString ''abc''), (''score'', VNumber ''42''),
                       (''blob'', VBinary ''hi''),
                       (''list'', VList [VString ''x'', VNumber ''5'', VBool False])])
   \<and> UnmarshalJSON None (MarshalJSON
        [(''name'', VString ''abc''), (''score'', VNumber ''42''), (''blob'', VBinary ''hi''),
         (''list'', VList [VString ''x'', VNumber ''5'', VBool False])])
     = (Some [(''name'', VString ''abc''), (''score'', VNumber ''42''),
              (''blob'', VBinary ''hi''),
              (''list'', VList [VString ''x'', VNumber ''5'', VBool False])], Returned None)"
  using roundtrip_nonempty_deep
          [of "VDocument [(''name'', VString ''abc''), (''score'', VNumber ''42''),
                 (''blob'', VBinary ''hi''),
                 (''list'', VList [VString ''x'', VNumber ''5'', VBool False])]"]
  by (simp add: isEmptyValue_def valid_utf8_ascii)

text \<open>
  C1 as stated fails at the Document \<^verbatim>\<open>{"a": ""}\<close>: it has one entry, so it is not
  empty, but its only field is empty and is left out of the encoding, which is the
  empty object; decoding gives the empty Document. It also fails at the Document
  whose one key is the single byte 0xFF and whose value is \<^verbatim>\<open>"x"\<close>, non-empty at
  every depth: the key is not valid UTF-8, the JSON text carries U+FFFD in its place,
  and the field comes back under that key.
\<close>

theorem roundtrip_loses_empty_field:
  "\<not> isEmptyValue (VDocument [(''a'', VString '''')])
   \<and> wireDecode (wireEncode (VDocument [(''a'', VString '''')])) = Inr (VDocument [])
   \<and> MarshalJSON [(''a'', VString '''')] = Text (JObject [])
   \<and> UnmarshalJSON None (MarshalJSON [(''a'', VString '''')]) = (Some [], Returned None)
   \<and> nonempty_deep (VDocument [([CHR 0xFF], VString ''x'')])
   \<and> UnmarshalJSON None (MarshalJSON [([CHR 0xFF], VString ''x'')])
       = (Some [([CHR 0xEF, CHR 0xBF, CHR 0xBD], VString ''x'')], Returned None)"
  by (simp add: isEmptyValue_def UnmarshalJSON_def MarshalJSON_def json_Marshal_def
      utf8_coerce_def rune_size_def replacement_def)

section \<open>The typed accessors\<close>

lemma index_absent: "map_of d k = None \<Longrightarrow> index d k = VNil"
  by (simp add: index_def)

lemma index_present: "map_of d k = Some v \<Longrightarrow> index d k = v"
  by (simp add: index_def)

text \<open>
  C6. For every Document \<open>d\<close> and key \<open>k\<close> that is absent from \<open>d\<close> or mapped to
  \<^verbatim>\<open>nil\<close>, the typed accessors return their defaults and do not panic: \<^verbatim>\<open>GetString\<close>
  the empty string, \<^verbatim>\<open>GetNumber\<close> the empty Number, \<^verbatim>\<open>GetStringSet\<close> the empty
  StringSet, \<^verbatim>\<open>GetList\<close> the empty List, \<^verbatim>\<open>GetBool\<close> false.
\<close>

theorem accessor_defaults:
  assumes "map_of d k = None \<or> map_of d k = Some VNil"
  shows "GetString d k = Inr [] \<and> GetNumber d k = Inr [] \<and> GetStringSet d k = Inr []
       \<and> GetList d k = Inr [] \<and> GetBool d k = Inr False"
proof -
  from assms have "index d k = VNil" by (auto simp: index_def)
  then show ?thesis
    by (simp add: GetString_def GetNumber_def GetStringSet_def GetList_def GetBool_def)
qed

theorem accessor_defaults_witness:
  "map_of [(''a'', VString ''x''), (''z'', VNil)] ''b'' = None
   \<and> GetString [(''a'', VString ''x''), (''z'', VNil)] ''b'' = Inr []
   \<and> GetNumber [(''a'', VString ''x''), (''z'', VNil)] ''b'' = Inr []
   \<and> GetStringSet [(''a'', VString ''x''), (''z'', VNil)] ''b'' = Inr []
   \<and> GetList [(''a'', VString ''x''), (''z'', VNil)] ''b'' = Inr []
   \<and> GetBool [(''a'', VString ''x''), (''z'', VNil)] ''b'' = Inr False
   \<and> map_of [(''a'', VString ''x''), (''z'', VNil)] ''z'' = Some VNil
   \<and> GetString [(''a'', VString ''x''), (''z'', VNil)] ''z'' = Inr []
   \<and> GetBool [(''a'', VString ''x''), (''z'', VNil)] ''z'' = Inr False"
  using accessor_defaults[of "[(''a'', VString ''x''), (''z'', VNil)]" "''b''"]
        accessor_defaults[of "[(''a'', VString ''x''), (''z'', VNil)]" "''z''"]
  by simp

text \<open>
  C5, as the code has it. For every Document \<open>d\<close> and key \<open>k\<close> whose value \<open>v\<close> is
  present, is not \<^verbatim>\<open>nil\<close>, and is not of the type an accessor asserts, that accessor
  panics: it neither converts the value nor returns its default. \<^verbatim>\<open>GetString\<close> and
  \<^verbatim>\<open>GetTime\<close> assert \<^verbatim>\<open>string\<close>, \<^verbatim>\<open>GetNumber\<close> and \<^verbatim>\<open>GetBool\<close> assert \<^verbatim>\<open>Number\<close>,
  \<^verbatim>\<open>GetStringSet\<close> asserts \<^verbatim>\<open>StringSet\<close>, \<^verbatim>\<open>GetList\<close> asserts \<^verbatim>\<open>List\<close>. (A key that is
  mapped to \<^verbatim>\<open>nil\<close> is read as an absent one.)
\<close>

theorem accessor_mismatch_panics:
  assumes "map_of d k = Some v" and "v \<noteq> VNil"
  shows "((\<forall>s. v \<noteq> VString s) \<longrightarrow>
            GetString d k = Inl TypeAssertion \<and> GetTime d k = Inl TypeAssertion)
       \<and> ((\<forall>n. v \<noteq> VNumber n) \<longrightarrow>
            GetNumber d k = Inl TypeAssertion \<and> GetBool d k = Inl TypeAssertion)
       \<and> ((\<forall>ss. v \<noteq> VStringSet ss) \<longrightarrow> GetStringSet d k = Inl TypeAssertion)
       \<and> ((\<forall>l. v \<noteq> VList l) \<longrightarrow> GetList d k = Inl TypeAssertion)"
proof -
  from assms(1) have i: "index d k = v" by (rule index_present)
  show ?thesis
    using assms(2)
    by (cases v)
       (simp_all add: i GetString_def GetTime_def GetNumber_def GetBool_def GetStringSet_def
          GetList_def)
qed

text \<open>
  \<^verbatim>\<open>GetString\<close>, \<^verbatim>\<open>GetTime\<close>, \<^verbatim>\<open>GetStringSet\<close> and \<^verbatim>\<open>GetList\<close> on a Number;
  \<^verbatim>\<open>GetNumber\<close>, \<^verbatim>\<open>GetBool\<close> and \<^verbatim>\<open>GetStringSet\<close> on a List.
\<close>

theorem accessor_mismatch_panics_witness:
  "map_of [(''n'', VNumber ''5''), (''l'', VList [VString ''x''])] ''n'' = Some (VNumber ''5'')
   \<and> GetString [(''n'', VNumber ''5''), (''l'', VList [VString ''x''])] ''n'' = Inl TypeAssertion
   \<and> GetTime [(''n'', VNumber ''5''), (''l'', VList [VString ''x''])] ''n'' = Inl TypeAssertion
   \<and> GetStringSet [(''n'', VNumber ''5''), (''l'', VList [VString ''x''])] ''n''
       = Inl TypeAssertion
   \<and> GetList [(''n'', VNumber ''5''), (''l'', VList [VString ''x''])] ''n'' = Inl TypeAssertion
   \<and> map_of [(''n'', VNumber ''5''), (''l'', VList [VString ''x''])] ''l''
       = Some (VList [VString ''x''])
   \<and> GetNumber [(''n'', VNumber ''5''), (''l'', VList [VString ''x''])] ''l'' = Inl TypeAssertion
   \<and> GetBool [(''n'', VNumber ''5''), (''l'', VList [VString ''x''])] ''l'' = Inl TypeAssertion
   \<and> GetStringSet [(''n'', VNumber ''5''), (''l'', VList [VString ''x''])] ''l''
       = Inl TypeAssertion"
  using accessor_mismatch_panics
          [of "[(''n'', VNumber ''5''), (''l'', VList [VString ''x''])]" "''n''" "VNumber ''5''"]
        accessor_mismatch_panics
          [of "[(''n'', VNumber ''5''), (''l'', VList [VString ''x''])]" "''l''"
              "VList [VString ''x'']"]
  by simp

text \<open>
  C5 as stated fails at a key that is present with the value \<^verbatim>\<open>nil\<close>, the Null of the
  vocabulary, which is what a \<^verbatim>\<open>NULL\<close> wire node decodes to: its kind matches no
  accessor, and every accessor returns its default, guarded by \<^verbatim>\<open>d[key] != nil\<close>.
\<close>

theorem accessor_nil_value_defaults:
  "map_of [(''z'', VNil)] ''z'' = Some VNil
   \<and> GetString [(''z'', VNil)] ''z'' = Inr []
   \<and> GetNumber [(''z'', VNil)] ''z'' = Inr []
   \<and> GetStringSet [(''z'', VNil)] ''z'' = Inr []
   \<and> GetList [(''z'', VNil)] ''z'' = Inr []
   \<and> GetBool [(''z'', VNil)] ''z'' = Inr False
   \<and> GetTime [(''z'', VNil)] ''z'' = Inr None
   \<and> UnmarshalJSON None (Text (JObject [(''z'', JObject [(''NULL'', JBool True)])]))
       = (Some [(''z'', VNil)], Returned None)"
  by (simp add: GetString_def GetNumber_def GetStringSet_def GetList_def GetBool_def GetTime_def
      index_def UnmarshalJSON_def utf8_coerce_def rune_size_def)

subsection \<open>\<^verbatim>\<open>GetBool\<close>\<close>

lemma Atoi_one: "Atoi ''1'' = (1, None)"
  by (simp add: Atoi_def isDigit_def)

lemma Atoi_zero: "Atoi ''0'' = (0, None)"
  by (simp add: Atoi_def isDigit_def)

lemma Atoi_error_not_one: "snd (Atoi s) \<noteq> None \<Longrightarrow> fst (Atoi s) \<noteq> 1"
  by (auto simp: Atoi_def Let_def split: prod.splits if_splits list.splits)

text \<open>
  C7. \<^verbatim>\<open>GetBool\<close> reads the legacy Number encoding of booleans: for every Document \<open>d\<close>
  and key \<open>k\<close>, if \<^verbatim>\<open>d[k]\<close> is \<^verbatim>\<open>Number("1")\<close> it returns true, if \<^verbatim>\<open>d[k]\<close> is
  \<^verbatim>\<open>Number("0")\<close> it returns false, and if \<open>k\<close> is absent it returns false.
\<close>

theorem GetBool_legacy_number:
  "(index d k = VNumber ''1'' \<longrightarrow> GetBool d k = Inr True)
   \<and> (index d k = VNumber ''0'' \<longrightarrow> GetBool d k = Inr False)
   \<and> (map_of d k = None \<longrightarrow> GetBool d k = Inr False)"
  by (simp add: GetBool_def IntVal_def Atoi_one Atoi_zero index_absent)

theorem GetBool_legacy_number_witness:
  "index [(''flag'', VNumber ''1'')] ''flag'' = VNumber ''1''
   \<and> GetBool [(''flag'', VNumber ''1'')] ''flag'' = Inr True
   \<and> index [(''flag'', VNumber ''0'')] ''flag'' = VNumber ''0''
   \<and> GetBool [(''flag'', VNumber ''0'')] ''flag'' = Inr False
   \<and> map_of [(''flag'', VNumber ''0'')] ''other'' = None
   \<and> GetBool [(''flag'', VNumber ''0'')] ''other'' = Inr False"
  using GetBool_legacy_number[of "[(''flag'', VNumber ''1'')]" "''flag''"]
        GetBool_legacy_number[of "[(''flag'', VNumber ''0'')]" "''flag''"]
        GetBool_legacy_number[of "[(''flag'', VNumber ''0'')]" "''other''"]
  by (simp add: index_def)

text \<open>
  C10. \<^verbatim>\<open>GetBool\<close> discards the error of \<^verbatim>\<open>IntVal\<close>: for every Document \<open>d\<close> and key \<open>k\<close>
  where \<^verbatim>\<open>d[k]\<close> is a Number with text \<open>n\<close>, it does not panic; it returns false when
  \<open>n\<close> does not parse as an integer and when \<open>n\<close> parses to an integer other than 1; it
  returns true exactly when \<open>n\<close> parses, without error, to 1.
\<close>

theorem GetBool_swallows_parse_failure:
  assumes "index d k = VNumber n"
  shows "(snd (IntVal n) \<noteq> None \<longrightarrow> GetBool d k = Inr False)
       \<and> (fst (IntVal n) \<noteq> 1 \<longrightarrow> GetBool d k = Inr False)
       \<and> (GetBool d k = Inr True \<longleftrightarrow> IntVal n = (1, None))
       \<and> (\<exists>b. GetBool d k = Inr b)"
proof -
  have g: "GetBool d k = Inr (fst (IntVal n) = 1)"
    using assms by (simp add: GetBool_def split: prod.splits)
  have e: "snd (IntVal n) \<noteq> None \<longrightarrow> fst (IntVal n) \<noteq> 1"
    using Atoi_error_not_one[of n] by (simp add: IntVal_def)
  show ?thesis
    using g e by (cases "IntVal n") auto
qed

theorem GetBool_swallows_parse_failure_witness:
  "index [(''f'', VNumber ''abc'')] ''f'' = VNumber ''abc''
   \<and> IntVal ''abc'' = (0, Some ErrSyntax)
   \<and> GetBool [(''f'', VNumber ''abc'')] ''f'' = Inr False
   \<and> index [(''f'', VNumber ''2'')] ''f'' = VNumber ''2''
   \<and> IntVal ''2'' = (2, None)
   \<and> GetBool [(''f'', VNumber ''2'')] ''f'' = Inr False
   \<and> index [(''f'', VNumber ''+01'')] ''f'' = VNumber ''+01''
   \<and> IntVal ''+01'' = (1, None)
   \<and> GetBool [(''f'', VNumber ''+01'')] ''f'' = Inr True"
  using GetBool_swallows_parse_failure[of "[(''f'', VNumber ''abc'')]" "''f''" "''abc''"]
        GetBool_swallows_parse_failure[of "[(''f'', VNumber ''2'')]" "''f''" "''2''"]
        GetBool_swallows_parse_failure[of "[(''f'', VNumber ''+01'')]" "''f''" "''+01''"]
  by (simp add: index_def IntVal_def Atoi_def isDigit_def)

subsection \<open>\<^verbatim>\<open>GetTime\<close>\<close>

lemma GetTime_absent: "index d k = VNil \<Longrightarrow> GetTime d k = Inr None"
  by (simp add: GetTime_def)

lemma GetTime_malformed:
  "index d k = VString s \<Longrightarrow> ParseInLocation_iso8601compact s = Inl e \<Longrightarrow>
   GetTime d k = Inl (TimeParse e)"
  by (simp add: GetTime_def)

lemma GetTime_parsed:
  "index d k = VString s \<Longrightarrow> ParseInLocation_iso8601compact s = Inr t \<Longrightarrow>
   GetTime d k = Inr (Some t)"
  by (simp add: GetTime_def)

text \<open>
  Whatever the layout, a value that is present and not \<^verbatim>\<open>nil\<close> never gives the nil
  result: \<^verbatim>\<open>GetTime\<close> panics or returns the address of the parsed time.
\<close>

lemma GetTime_present_not_nil: "index d k \<noteq> VNil \<Longrightarrow> GetTime d k \<noteq> Inr None"
  by (cases "index d k") (simp_all add: GetTime_def split: sum.splits)

text \<open>
  The earlier revision returns \<^verbatim>\<open>nil\<close> for an absent key and for the empty string, and
  also for every other string that does not parse: it never panics on a string.
\<close>

lemma GetTime_part_001_absent: "index d k = VNil \<Longrightarrow> GetTime_part_001 d k = Inr None"
  by (simp add: GetTime_part_001_def GetString_def ParseInLocation_extended_def
      ParseInLocation_def getyear_def)

lemma GetTime_part_001_malformed:
  "index d k = VString s \<Longrightarrow> ParseInLocation_extended s = Inl e \<Longrightarrow>
   GetTime_part_001 d k = Inr None"
  by (simp add: GetTime_part_001_def GetString_def)

lemma GetTime_part_001_empty_string:
  "GetTime_part_001 [(''t'', VString '''')] ''t'' = Inr None"
  by (simp add: GetTime_part_001_def GetString_def index_def ParseInLocation_extended_def
      ParseInLocation_def getyear_def)

text \<open>
  C4. The comment of \<^verbatim>\<open>GetTime\<close> says: "If the value is omitted from the DB, or an empty
  string, then the return is nil. If the value fails to parse as iso8601, then this
  method panics." The code returns \<^verbatim>\<open>nil\<close> for an absent key (\<open>GetTime_absent\<close>) and
  panics on a string that does not parse (\<open>GetTime_malformed\<close>), but the empty string is
  such a string: on \<^verbatim>\<open>Document{"t": ""}\<close>, \<^verbatim>\<open>GetTime("t")\<close> panics with the parse error
  instead of returning \<^verbatim>\<open>nil\<close> (\<open>GetTime_present_not_nil\<close>: this holds of any layout).
\<close>

theorem GetTime_empty_string_panics:
  "GetTime [(''t'', VString '''')] ''t'' = Inl (TimeParse BadFormat)"
  by (simp add: GetTime_def index_def ParseInLocation_iso8601compact_def ParseInLocation_def
      iso8601compact_def getyear_def)

section \<open>\<^verbatim>\<open>Param.AsParams\<close>\<close>

text \<open>
  C8. For every key \<open>k\<close> and value \<open>v\<close>, \<^verbatim>\<open>Param{k, v}.AsParams()\<close> is the one-element list
  \<^verbatim>\<open>[Param{k, v}]\<close>.
\<close>

theorem Param_AsParams_singleton:
  "Param_AsParams \<lparr>Key = k, Value = v\<rparr> = [\<lparr>Key = k, Value = v\<rparr>]"
  by (simp add: Param_AsParams_def)

end
